theory Spec2Isabelle
  imports Main
begin

section \<open>JavaScript values\<close>

text \<open>
  The values \<^verbatim>\<open>JSON.parse\<close> produces, and \<^verbatim>\<open>undefined\<close>, which a property read
  produces. A Number is held as the text \<^verbatim>\<open>Number.prototype.toString\<close> gives for it: that
  text determines the number up to the sign of zero, and the program only tests a number
  for truthiness, prints it inside \<^verbatim>\<open>join\<close> and compares it inside a \<^verbatim>\<open>Set\<close>, none of
  which tells \<^verbatim>\<open>0\<close> from \<^verbatim>\<open>-0\<close>. An object is the list of its own properties in the
  order \<^verbatim>\<open>for ... in\<close> enumerates them, with one entry per key, as \<^verbatim>\<open>JSON.parse\<close>
  builds it.
\<close>

datatype jsval =
    JUndef
  | JNull
  | JBool bool
  | JNum string
  | JStr string
  | JArr "jsval list"
  | JObj "(string \<times> jsval) list"

datatype error = TypeError | SyntaxError

text \<open>ToBoolean.\<close>

fun truthy :: "jsval \<Rightarrow> bool" where
  "truthy JUndef = False"
| "truthy JNull = False"
| "truthy (JBool b) = b"
| "truthy (JNum s) = (s \<noteq> ''0'' \<and> s \<noteq> ''NaN'')"
| "truthy (JStr s) = (s \<noteq> [])"
| "truthy (JArr xs) = True"
| "truthy (JObj kvs) = True"

text \<open>\<^verbatim>\<open>a || b\<close>\<close>

definition or_js :: "jsval \<Rightarrow> jsval \<Rightarrow> jsval" where
  "or_js a b = (if truthy a then a else b)"

text \<open>Decimal text of a natural number: an array index as a property key, a clock field.\<close>

definition digits :: string where
  "digits = ''0123456789''"

definition digit :: "nat \<Rightarrow> char" where
  "digit n = digits ! (n mod 10)"

fun dec :: "nat \<Rightarrow> string" where
  "dec n = (if n < 10 then [digit n] else dec (n div 10) @ [digit n])"

declare dec.simps [simp del]

text \<open>
  The own enumerable properties of a value, in \<^verbatim>\<open>for ... in\<close> order: the entries of an
  object, the indices of an array, the indices of a string (each holding a one-character
  string); a number or a boolean has none.
\<close>

fun props :: "jsval \<Rightarrow> (string \<times> jsval) list" where
  "props (JObj kvs) = kvs"
| "props (JArr xs) = zip (map dec [0..<length xs]) xs"
| "props (JStr s) = zip (map dec [0..<length s]) (map (\<lambda>c. JStr [c]) s)"
| "props v = []"

text \<open>
  \<^verbatim>\<open>v[k]\<close> and \<^verbatim>\<open>v.k\<close> on a value that is neither \<^verbatim>\<open>undefined\<close> nor \<^verbatim>\<open>null\<close>. The
  keys the program reads (\<^verbatim>\<open>vulnerabilities\<close>, \<^verbatim>\<open>advisories\<close>, \<^verbatim>\<open>via\<close>, \<^verbatim>\<open>title\<close>,
  \<^verbatim>\<open>url\<close>, \<^verbatim>\<open>name\<close>, \<^verbatim>\<open>module_name\<close>, \<^verbatim>\<open>severity\<close>, \<^verbatim>\<open>cwe\<close>, \<^verbatim>\<open>cves\<close>, and the keys
  \<^verbatim>\<open>for ... in\<close> hands it) are on none of the built-in prototypes, so a read finds an
  own property or \<^verbatim>\<open>undefined\<close>.
\<close>

definition field :: "jsval \<Rightarrow> string \<Rightarrow> jsval" where
  "field v k = (case map_of (props v) k of None \<Rightarrow> JUndef | Some x \<Rightarrow> x)"

fun nullish :: "jsval \<Rightarrow> bool" where
  "nullish JUndef = True"
| "nullish JNull = True"
| "nullish v = False"

fun is_object :: "jsval \<Rightarrow> bool" where
  "is_object (JObj kvs) = True"
| "is_object v = False"

fun is_array :: "jsval \<Rightarrow> bool" where
  "is_array (JArr xs) = True"
| "is_array v = False"

text \<open>A property read: a TypeError on \<^verbatim>\<open>undefined\<close> and \<^verbatim>\<open>null\<close>.\<close>

fun get_prop :: "jsval \<Rightarrow> string \<Rightarrow> error + jsval" where
  "get_prop JUndef k = Inl TypeError"
| "get_prop JNull k = Inl TypeError"
| "get_prop v k = Inr (field v k)"

text \<open>
  The elements the spread \<^verbatim>\<open>...v\<close> yields: those of an array, the characters of a
  string; nothing else that \<^verbatim>\<open>JSON.parse\<close> builds is iterable.
\<close>

fun iterable :: "jsval \<Rightarrow> bool" where
  "iterable (JArr xs) = True"
| "iterable (JStr s) = True"
| "iterable v = False"

fun iterate :: "jsval \<Rightarrow> error + jsval list" where
  "iterate (JArr xs) = Inr xs"
| "iterate (JStr s) = Inr (map (\<lambda>c. JStr [c]) s)"
| "iterate v = Inl TypeError"

text \<open>
  \<^verbatim>\<open>r.concat(a)\<close> followed by \<^verbatim>\<open>.join\<close>: on an array receiver, an array argument is
  spread and any other argument, \<^verbatim>\<open>undefined\<close> too, is appended as one element. A string
  receiver concatenates to a string, which has no \<^verbatim>\<open>join\<close>; any other receiver has no
  \<^verbatim>\<open>concat\<close>: both end in a TypeError.
\<close>

fun concat_js :: "jsval \<Rightarrow> jsval \<Rightarrow> error + jsval list" where
  "concat_js (JArr xs) (JArr ys) = Inr (xs @ ys)"
| "concat_js (JArr xs) a = Inr (xs @ [a])"
| "concat_js r a = Inl TypeError"

fun sep_join :: "string \<Rightarrow> string list \<Rightarrow> string" where
  "sep_join sep [] = []"
| "sep_join sep [x] = x"
| "sep_join sep (x # y # ys) = x @ sep @ sep_join sep (y # ys)"

text \<open>The results of a sequence of steps, or the error of the first that throws.\<close>

fun all_ok :: "(error + 'a) list \<Rightarrow> error + 'a list" where
  "all_ok [] = Inr []"
| "all_ok (Inl e # rs) = Inl e"
| "all_ok (Inr x # rs) = (case all_ok rs of Inl e \<Rightarrow> Inl e | Inr xs \<Rightarrow> Inr (x # xs))"

text \<open>
  The text \<^verbatim>\<open>Array.prototype.join\<close> gives an element: empty for \<^verbatim>\<open>undefined\<close> and
  \<^verbatim>\<open>null\<close>, ToString otherwise. ToString of an array is its elements joined with a
  comma. ToString of an object calls its \<^verbatim>\<open>toString\<close>: the one of \<^verbatim>\<open>Object.prototype\<close>
  gives \<^verbatim>\<open>[object Object]\<close>; an own \<^verbatim>\<open>toString\<close> key of a parsed object hides it with a
  value that cannot be called, \<^verbatim>\<open>valueOf\<close> gives no primitive either, and the conversion
  throws a TypeError.
\<close>

fun elem_str :: "jsval \<Rightarrow> error + string" where
  "elem_str JUndef = Inr []"
| "elem_str JNull = Inr []"
| "elem_str (JBool b) = Inr (if b then ''true'' else ''false'')"
| "elem_str (JNum s) = Inr s"
| "elem_str (JStr s) = Inr s"
| "elem_str (JArr xs) =
     (case all_ok (map elem_str xs) of
        Inl e \<Rightarrow> Inl e
      | Inr ss \<Rightarrow> Inr (sep_join '','' ss))"
| "elem_str (JObj kvs) =
     (if ''toString'' \<in> set (map fst kvs) then Inl TypeError else Inr ''[object Object]'')"

definition join_js :: "jsval list \<Rightarrow> string \<Rightarrow> error + string" where
  "join_js xs sep =
     (case all_ok (map elem_str xs) of
        Inl e \<Rightarrow> Inl e
      | Inr ss \<Rightarrow> Inr (sep_join sep ss))"

text \<open>
  The values \<^verbatim>\<open>join\<close> can print: no object with an own \<^verbatim>\<open>toString\<close> key is among
  them, at any depth of arrays.
\<close>

fun printable :: "jsval \<Rightarrow> bool" where
  "printable (JArr xs) = list_all printable xs"
| "printable (JObj kvs) = (''toString'' \<notin> set (map fst kvs))"
| "printable v = True"

section \<open>The normalizer and the mapper\<close>

record vulnerability =
  link :: jsval
  name :: jsval
  package :: jsval
  severity :: jsval
  cwes :: string

text \<open>
  The keys \<^verbatim>\<open>for (const k in v)\<close> visits, and the values \<^verbatim>\<open>v[k]\<close> it finds
  there.
\<close>

definition keys :: "jsval \<Rightarrow> string list" where
  "keys v = map fst (props v)"

definition visited :: "jsval \<Rightarrow> jsval list" where
  "visited v = map (field v) (keys v)"

text \<open>\<^verbatim>\<open>...entry.via\<close>: reading \<^verbatim>\<open>via\<close> and spreading it.\<close>

definition spread_via :: "jsval \<Rightarrow> error + jsval list" where
  "spread_via entry =
     (case get_prop entry ''via'' of
        Inl e \<Rightarrow> Inl e
      | Inr via \<Rightarrow> iterate via)"

text \<open>
  A package entry carries an iterable \<^verbatim>\<open>via\<close>: the entry can be read and its \<^verbatim>\<open>via\<close>
  is an array or a string. \<open>via_elements\<close> are the elements the spread then yields.
\<close>

definition has_via :: "jsval \<Rightarrow> bool" where
  "has_via entry = (\<not> nullish entry \<and> iterable (field entry ''via''))"

definition via_elements :: "jsval \<Rightarrow> jsval list" where
  "via_elements entry = (case spread_via entry of Inl e \<Rightarrow> [] | Inr xs \<Rightarrow> xs)"

text \<open>
  \<^verbatim>\<open>for (const pkg in data.vulnerabilities) allVulns.push(...data.vulnerabilities[pkg].via)\<close>,
  over the keys still to visit.
\<close>

fun push_via :: "jsval \<Rightarrow> string list \<Rightarrow> jsval list \<Rightarrow> error + jsval list" where
  "push_via vs [] allVulns = Inr allVulns"
| "push_via vs (pkg # pkgs) allVulns =
     (case spread_via (field vs pkg) of
        Inl e \<Rightarrow> Inl e
      | Inr xs \<Rightarrow> push_via vs pkgs (allVulns @ xs))"

text \<open>\<^verbatim>\<open>for (const vuln in data.advisories) allVulns.push(data.advisories[vuln])\<close>\<close>

fun push_advisories :: "jsval \<Rightarrow> string list \<Rightarrow> jsval list \<Rightarrow> jsval list" where
  "push_advisories adv [] allVulns = allVulns"
| "push_advisories adv (vuln # ks) allVulns =
     push_advisories adv ks (allVulns @ [field adv vuln])"

text \<open>The local \<^verbatim>\<open>allVulns\<close> of \<^verbatim>\<open>getVulnerabilities\<close> when the two loops are over.\<close>

definition allVulns :: "jsval \<Rightarrow> error + jsval list" where
  "allVulns data =
     (case get_prop data ''vulnerabilities'' of
        Inl e \<Rightarrow> Inl e
      | Inr vs \<Rightarrow>
          if truthy vs then push_via vs (keys vs) []
          else if truthy (field data ''advisories'')
            then Inr (push_advisories (field data ''advisories'')
                        (keys (field data ''advisories'')) [])
          else Inr [])"

definition processVulnerability :: "jsval \<Rightarrow> error + vulnerability option" where
  "processVulnerability vuln =
     (case get_prop vuln ''title'' of
        Inl e \<Rightarrow> Inl e
      | Inr title \<Rightarrow>
          if truthy title then
            (case concat_js (or_js (field vuln ''cwe'') (JArr [])) (field vuln ''cves'') of
               Inl e \<Rightarrow> Inl e
             | Inr ids \<Rightarrow>
                 (case join_js ids '', '' of
                    Inl e \<Rightarrow> Inl e
                  | Inr joined \<Rightarrow>
                      Inr (Some \<lparr> link = field vuln ''url'',
                                  name = title,
                                  package = or_js (field vuln ''name'')
                                              (field vuln ''module_name''),
                                  severity = field vuln ''severity'',
                                  cwes = joined \<rparr>)))
          else Inr None)"

text \<open>
  An object with a title: the title is truthy, which for a string is to be non-empty.
\<close>

definition object_with_title :: "jsval \<Rightarrow> bool" where
  "object_with_title raw = (is_object raw \<and> truthy (field raw ''title''))"

text \<open>
  The raw entries \<^verbatim>\<open>processVulnerability\<close> returns on: \<^verbatim>\<open>title\<close> can be read, and where
  it is truthy, \<^verbatim>\<open>cwe\<close> is falsy (absent, too) or an array, and \<^verbatim>\<open>join\<close> can print
  what \<^verbatim>\<open>cwe\<close> and \<^verbatim>\<open>cves\<close> hold.
\<close>

definition mappable :: "jsval \<Rightarrow> bool" where
  "mappable raw =
     (if nullish raw then False
      else if truthy (field raw ''title'')
        then (\<not> truthy (field raw ''cwe'') \<or> is_array (field raw ''cwe''))
          \<and> printable (field raw ''cwe'') \<and> printable (field raw ''cves'')
      else True)"

text \<open>\<^verbatim>\<open>allVulns.map((vuln) => processVulnerability(vuln))\<close>: the first throw ends it.\<close>

fun map_process :: "jsval list \<Rightarrow> error + vulnerability option list" where
  "map_process [] = Inr []"
| "map_process (vuln # rest) =
     (case processVulnerability vuln of
        Inl e \<Rightarrow> Inl e
      | Inr r \<Rightarrow>
          (case map_process rest of
             Inl e \<Rightarrow> Inl e
           | Inr rs \<Rightarrow> Inr (r # rs)))"

text \<open>\<^verbatim>\<open>.filter(vuln => vuln)\<close>: a record is truthy, \<^verbatim>\<open>undefined\<close> is not.\<close>

fun filter_defined :: "vulnerability option list \<Rightarrow> vulnerability list" where
  "filter_defined [] = []"
| "filter_defined (None # rs) = filter_defined rs"
| "filter_defined (Some v # rs) = v # filter_defined rs"

definition getVulnerabilities :: "jsval \<Rightarrow> error + vulnerability list" where
  "getVulnerabilities data =
     (case allVulns data of
        Inl e \<Rightarrow> Inl e
      | Inr raws \<Rightarrow>
          (case map_process raws of
             Inl e \<Rightarrow> Inl e
           | Inr rs \<Rightarrow> Inr (filter_defined rs)))"

section \<open>The aggregator and the report payload\<close>

definition countVulnerabilities :: "vulnerability list \<Rightarrow> string \<Rightarrow> nat" where
  "countVulnerabilities vulnerabilities sev =
     length (filter (\<lambda>vuln. severity vuln = JStr sev) vulnerabilities)"

text \<open>The five severity literals \<^verbatim>\<open>generateHtmlTemplateContent\<close> counts.\<close>

definition severities :: "string list" where
  "severities = [''critical'', ''high'', ''moderate'', ''low'', ''info'']"

text \<open>
  \<^verbatim>\<open>new Set(xs)\<close> keeps the first of the elements that are the same under SameValueZero:
  two primitives are the same when they are equal; an object or an array is the same as
  itself only, and the objects \<^verbatim>\<open>JSON.parse\<close> builds are all different ones, so two
  of them found at different places of the document are never the same.
\<close>

fun primitive :: "jsval \<Rightarrow> bool" where
  "primitive (JArr xs) = False"
| "primitive (JObj kvs) = False"
| "primitive v = True"

definition same_value_zero :: "jsval \<Rightarrow> jsval \<Rightarrow> bool" where
  "same_value_zero a b = (primitive a \<and> a = b)"

definition set_add :: "jsval list \<Rightarrow> jsval \<Rightarrow> jsval list" where
  "set_add s x = (if list_ex (\<lambda>y. same_value_zero y x) s then s else s @ [x])"

definition new_Set :: "jsval list \<Rightarrow> jsval list" where
  "new_Set xs = foldl set_add [] xs"

definition vulnerableDependencies :: "vulnerability list \<Rightarrow> nat" where
  "vulnerableDependencies vulnerabilities =
     length (new_Set (map (\<lambda>vuln. package vuln) vulnerabilities))"

text \<open>The fields of \<^verbatim>\<open>new Date()\<close> that \<^verbatim>\<open>getCurrentDate\<close> reads.\<close>

record date =
  getDate :: nat
  getMonth :: nat
  getFullYear :: nat
  getHours :: nat
  getMinutes :: nat
  getSeconds :: nat

definition str :: "nat \<Rightarrow> string" where
  "str n = dec n"

definition checkNumLength :: "string \<Rightarrow> string" where
  "checkNumLength number = (if length number = 2 then number else ''0'' @ number)"

definition months :: "string list" where
  "months = [''January'', ''February'', ''March'', ''April'', ''May'', ''June'', ''July'',
     ''August'', ''September'', ''October'', ''November'', ''December'']"

definition getCurrentDate :: "date \<Rightarrow> string" where
  "getCurrentDate d =
     checkNumLength (str (getDate d)) @ '' of ''
       @ (if getMonth d < length months then months ! getMonth d else ''undefined'')
       @ '', '' @ dec (getFullYear d) @ '' - ''
       @ checkNumLength (str (getHours d)) @ '':''
       @ checkNumLength (str (getMinutes d)) @ '':''
       @ checkNumLength (str (getSeconds d))"

text \<open>
  The object literal \<^verbatim>\<open>templateData\<close>: its keys in the order written, each with its
  value.
\<close>

datatype pval = PNum nat | PStr string | PVulns "vulnerability list"

definition templateData :: "date \<Rightarrow> vulnerability list \<Rightarrow> (string \<times> pval) list" where
  "templateData d vulnerabilities =
     [(''vulnsFound'', PNum (length vulnerabilities)),
      (''vulnerableDependencies'', PNum (vulnerableDependencies vulnerabilities)),
      (''currentDate'', PStr (getCurrentDate d)),
      (''criticalVulns'', PNum (countVulnerabilities vulnerabilities ''critical'')),
      (''highVulns'', PNum (countVulnerabilities vulnerabilities ''high'')),
      (''moderateVulns'', PNum (countVulnerabilities vulnerabilities ''moderate'')),
      (''lowVulns'', PNum (countVulnerabilities vulnerabilities ''low'')),
      (''infoVulns'', PNum (countVulnerabilities vulnerabilities ''info'')),
      (''vulnerabilities'', PVulns vulnerabilities)]"

text \<open>
  What the program reads of its surroundings: the clock, \<^verbatim>\<open>os.platform()\<close>,
  \<^verbatim>\<open>process.argv\<close> and \<^verbatim>\<open>process.cwd()\<close>.
\<close>

record env =
  now :: date
  platform :: string
  argv :: "string list"
  cwd :: string

text \<open>
  \<^verbatim>\<open>generateHtmlTemplateContent\<close>, with \<^verbatim>\<open>JSON.parse\<close> and \<^verbatim>\<open>ejs.render\<close> on the
  loaded template taken as parameters; \<open>payload\<close> is the object it hands to the renderer.
\<close>

definition payload ::
  "(string \<Rightarrow> error + jsval) \<Rightarrow> env \<Rightarrow> string \<Rightarrow> error + (string \<times> pval) list" where
  "payload json_parse e data =
     (case json_parse data of
        Inl err \<Rightarrow> Inl err
      | Inr doc \<Rightarrow>
          (case getVulnerabilities doc of
             Inl err \<Rightarrow> Inl err
           | Inr vulnerabilities \<Rightarrow> Inr (templateData (now e) vulnerabilities)))"

definition generateHtmlTemplateContent ::
  "(string \<Rightarrow> error + jsval) \<Rightarrow> ((string \<times> pval) list \<Rightarrow> error + string)
     \<Rightarrow> env \<Rightarrow> string \<Rightarrow> error + string" where
  "generateHtmlTemplateContent json_parse render e data =
     (case payload json_parse e data of
        Inl err \<Rightarrow> Inl err
      | Inr obj \<Rightarrow> render obj)"

section \<open>The output path\<close>

definition OUTPUT_FILE_NAME :: string where
  "OUTPUT_FILE_NAME = ''audit-report.html''"

text \<open>\<^verbatim>\<open>join\<close> of the source, on an array of strings.\<close>

definition join :: "string \<Rightarrow> string list \<Rightarrow> string" where
  "join plat paths =
     (if plat = ''win32'' then sep_join [CHR 0x5C] paths else sep_join ''/'' paths)"

text \<open>
  \<^verbatim>\<open>process.argv[3]\<close> is a string or \<^verbatim>\<open>undefined\<close>; the empty string is falsy as
  \<^verbatim>\<open>undefined\<close> is.
\<close>

definition getFinalPath :: "string \<Rightarrow> string \<Rightarrow> string option \<Rightarrow> string" where
  "getFinalPath plat folderPath filePath =
     (case filePath of
        Some f \<Rightarrow> if f \<noteq> [] then join plat [folderPath, f]
                  else join plat [folderPath, OUTPUT_FILE_NAME]
      | None \<Rightarrow> join plat [folderPath, OUTPUT_FILE_NAME])"

text \<open>\<^verbatim>\<open>process.argv[2] || process.cwd()\<close> and \<^verbatim>\<open>process.argv[3]\<close>\<close>

definition arg :: "string list \<Rightarrow> nat \<Rightarrow> string option" where
  "arg args i = (if i < length args then Some (args ! i) else None)"

definition folderPath :: "env \<Rightarrow> string" where
  "folderPath e =
     (case arg (argv e) 2 of
        Some a \<Rightarrow> if a \<noteq> [] then a else cwd e
      | None \<Rightarrow> cwd e)"

definition filePath :: "env \<Rightarrow> string option" where
  "filePath e = arg (argv e) 3"

definition finalPath :: "env \<Rightarrow> string" where
  "finalPath e = getFinalPath (platform e) (folderPath e) (filePath e)"

section \<open>Property keys and array indices\<close>

lemma digit_mem: "digit n \<in> set digits"
  unfolding digit_def by (rule nth_mem) (simp add: digits_def)

lemma dec_digits: "set (dec n) \<subseteq> set digits"
proof (induction n rule: dec.induct)
  case (1 n)
  show ?case
  proof (cases "n < 10")
    case True
    then show ?thesis by (subst dec.simps) (simp add: digit_mem)
  next
    case False
    with 1 show ?thesis by (subst dec.simps) (simp add: digit_mem)
  qed
qed

lemma map_of_index_keys:
  assumes "\<not> set k \<subseteq> set digits"
  shows "map_of (zip (map dec ns) vs) k = None"
proof -
  have "k \<notin> set (map dec ns)" using assms dec_digits by auto
  then have "k \<notin> fst ` set (zip (map dec ns) vs)"
    by (auto dest: set_zip_leftD)
  then show ?thesis by (simp add: map_of_eq_None_iff)
qed

text \<open>A key that is not a decimal number names a property of objects only.\<close>

lemma field_not_object:
  assumes "\<not> set k \<subseteq> set digits" and "\<forall>kvs. v \<noteq> JObj kvs"
  shows "field v k = JUndef"
  using assms by (cases v) (simp_all add: field_def map_of_index_keys)

lemma field_absent: "k \<notin> set (keys v) \<Longrightarrow> field v k = JUndef"
  by (simp add: field_def keys_def map_of_eq_None_iff[THEN iffD2])

lemma get_prop_nullish:
  "get_prop v k = (if nullish v then Inl TypeError else Inr (field v k))"
  by (cases v) simp_all

text \<open>The loop over an object visits its values in the order of its keys.\<close>

lemma visited_object:
  assumes "distinct (map fst kvs)"
  shows "visited (JObj kvs) = map snd kvs"
proof -
  have "field (JObj kvs) (fst kv) = snd kv" if "kv \<in> set kvs" for kv
  proof -
    from that have "(fst kv, snd kv) \<in> set kvs" by simp
    with assms have "map_of kvs (fst kv) = Some (snd kv)" by (rule map_of_is_SomeI)
    then show ?thesis by (simp add: field_def)
  qed
  then show ?thesis by (simp add: visited_def keys_def)
qed

section \<open>The normalizer\<close>

lemma spread_via_has: "has_via p \<Longrightarrow> spread_via p = Inr (via_elements p)"
  by (cases "field p ''via''")
     (simp_all add: has_via_def via_elements_def spread_via_def get_prop_nullish)

lemma spread_via_lacks: "\<not> has_via p \<Longrightarrow> spread_via p = Inl TypeError"
  by (cases "field p ''via''")
     (auto simp add: has_via_def spread_via_def get_prop_nullish)

lemma via_elements_array:
  assumes "\<not> nullish p" and "field p ''via'' = JArr xs"
  shows "has_via p \<and> via_elements p = xs"
  using assms by (simp add: has_via_def via_elements_def spread_via_def get_prop_nullish)

lemma push_via_eq:
  "push_via vs ks acc =
     (if \<forall>k\<in>set ks. has_via (field vs k)
      then Inr (acc @ concat (map (\<lambda>k. via_elements (field vs k)) ks))
      else Inl TypeError)"
proof (induction ks arbitrary: acc)
  case Nil
  show ?case by simp
next
  case (Cons k ks)
  show ?case
  proof (cases "has_via (field vs k)")
    case True
    then show ?thesis by (simp add: spread_via_has Cons.IH)
  next
    case False
    then show ?thesis by (simp add: spread_via_lacks)
  qed
qed

lemma push_advisories_eq: "push_advisories adv ks acc = acc @ map (field adv) ks"
  by (induction ks arbitrary: acc) simp_all

lemma allVulns_modern:
  assumes "\<not> nullish data" and "truthy (field data ''vulnerabilities'')"
  shows "allVulns data =
     (if \<forall>p\<in>set (visited (field data ''vulnerabilities'')). has_via p
      then Inr (concat (map via_elements (visited (field data ''vulnerabilities''))))
      else Inl TypeError)"
  using assms
  by (simp add: allVulns_def get_prop_nullish push_via_eq visited_def comp_def)

lemma allVulns_legacy:
  assumes "\<not> nullish data" and "\<not> truthy (field data ''vulnerabilities'')"
    and "truthy (field data ''advisories'')"
  shows "allVulns data = Inr (visited (field data ''advisories''))"
  using assms
  by (simp add: allVulns_def get_prop_nullish push_advisories_eq visited_def)

lemma allVulns_neither:
  assumes "\<not> nullish data" and "\<not> truthy (field data ''vulnerabilities'')"
    and "\<not> truthy (field data ''advisories'')"
  shows "allVulns data = Inr []"
  using assms by (simp add: allVulns_def get_prop_nullish)

lemma allVulns_nullish: "nullish data \<Longrightarrow> allVulns data = Inl TypeError"
  by (simp add: allVulns_def get_prop_nullish)

text \<open>
  C4, as the claim states it, fails. A document whose \<^verbatim>\<open>vulnerabilities\<close> key holds
  \<^verbatim>\<open>null\<close> has the key, and the normalizer reads \<^verbatim>\<open>advisories\<close> all the same and collects
  the advisory found there. On the document \<^verbatim>\<open>null\<close> it takes no branch and throws. Where
  one package has no \<^verbatim>\<open>via\<close> it throws, and the elements of the other package's \<^verbatim>\<open>via\<close>
  are not collected.
\<close>

theorem falsy_vulnerabilities_reads_advisories:
  "''vulnerabilities'' \<in> set (keys (JObj [(''vulnerabilities'', JNull),
        (''advisories'', JObj [(''1'', JObj [(''title'', JStr ''T'')])])]))
   \<and> allVulns (JObj [(''vulnerabilities'', JNull),
        (''advisories'', JObj [(''1'', JObj [(''title'', JStr ''T'')])])])
     = Inr [JObj [(''title'', JStr ''T'')]]
   \<and> allVulns JNull = Inl TypeError
   \<and> allVulns (JObj [(''vulnerabilities'',
        JObj [(''a'', JObj [(''via'', JArr [JStr ''b''])]), (''b'', JObj [])])])
     = Inl TypeError"
  by (simp add: allVulns_def keys_def field_def spread_via_def)

text \<open>
  C4, amended: for every parsed input document other than \<^verbatim>\<open>null\<close> the normalizer takes one
  branch, chosen by the truthiness of the value and not by the presence of the key. When
  the value of \<^verbatim>\<open>vulnerabilities\<close> is truthy (any object is, the empty one too) and every
  package entry carries an iterable \<^verbatim>\<open>via\<close>, it collects every element of each package's
  \<^verbatim>\<open>via\<close>, packages in key order and elements in sequence order; the result is the same
  for any other document with the same \<^verbatim>\<open>vulnerabilities\<close> value, whatever its
  \<^verbatim>\<open>advisories\<close>. Otherwise, when the value of \<^verbatim>\<open>advisories\<close> is truthy, it collects every
  value of that mapping in key order. The values visited in an object are its values in
  the order of its keys.
\<close>

theorem normalizer_branch_by_truthiness:
  assumes "\<not> nullish data"
  shows "(truthy (field data ''vulnerabilities'')
            \<and> (\<forall>p\<in>set (visited (field data ''vulnerabilities'')). has_via p)
          \<longrightarrow> allVulns data
              = Inr (concat (map via_elements (visited (field data ''vulnerabilities'')))))
     \<and> (truthy (field data ''vulnerabilities'') \<and> \<not> nullish data'
            \<and> field data' ''vulnerabilities'' = field data ''vulnerabilities''
          \<longrightarrow> allVulns data' = allVulns data)
     \<and> (\<not> truthy (field data ''vulnerabilities'') \<and> truthy (field data ''advisories'')
          \<longrightarrow> allVulns data = Inr (visited (field data ''advisories'')))
     \<and> (distinct (map fst kvs) \<longrightarrow> visited (JObj kvs) = map snd kvs)"
proof -
  have modern: "allVulns data
      = Inr (concat (map via_elements (visited (field data ''vulnerabilities''))))"
    if "truthy (field data ''vulnerabilities'')"
      and "\<forall>p\<in>set (visited (field data ''vulnerabilities'')). has_via p"
    using assms that by (simp add: allVulns_modern)
  have same: "allVulns data' = allVulns data"
    if "truthy (field data ''vulnerabilities'')" and "\<not> nullish data'"
      and "field data' ''vulnerabilities'' = field data ''vulnerabilities''"
    using assms that by (simp add: allVulns_modern)
  have legacy: "allVulns data = Inr (visited (field data ''advisories''))"
    if "\<not> truthy (field data ''vulnerabilities'')" and "truthy (field data ''advisories'')"
    using assms that by (rule allVulns_legacy)
  from modern same legacy visited_object show ?thesis by blast
qed

theorem normalizer_branch_by_truthiness_witness:
  "\<not> nullish (JObj [(''vulnerabilities'',
        JObj [(''a'', JObj [(''via'', JArr [JStr ''b''])]),
              (''b'', JObj [(''via'', JArr [JObj [(''title'', JStr ''T'')], JStr ''c''])])]),
      (''advisories'', JObj [(''1'', JObj [(''title'', JStr ''U'')])])])
   \<and> allVulns (JObj [(''vulnerabilities'',
        JObj [(''a'', JObj [(''via'', JArr [JStr ''b''])]),
              (''b'', JObj [(''via'', JArr [JObj [(''title'', JStr ''T'')], JStr ''c''])])]),
      (''advisories'', JObj [(''1'', JObj [(''title'', JStr ''U'')])])])
     = Inr [JStr ''b'', JObj [(''title'', JStr ''T'')], JStr ''c'']
   \<and> allVulns (JObj [(''vulnerabilities'',
        JObj [(''a'', JObj [(''via'', JArr [JStr ''b''])]),
              (''b'', JObj [(''via'', JArr [JObj [(''title'', JStr ''T'')], JStr ''c''])])])])
     = Inr [JStr ''b'', JObj [(''title'', JStr ''T'')], JStr ''c'']
   \<and> allVulns (JObj [(''advisories'', JObj [(''1'', JObj [(''title'', JStr ''U'')])])])
     = Inr [JObj [(''title'', JStr ''U'')]]
   \<and> visited (JObj [(''a'', JStr ''x''), (''b'', JStr ''y'')]) = [JStr ''x'', JStr ''y'']"
proof -
  let ?V = "JObj [(''a'', JObj [(''via'', JArr [JStr ''b''])]),
      (''b'', JObj [(''via'', JArr [JObj [(''title'', JStr ''T'')], JStr ''c''])])]"
  let ?A = "JObj [(''1'', JObj [(''title'', JStr ''U'')])]"
  let ?both = "JObj [(''vulnerabilities'', ?V), (''advisories'', ?A)]"
  let ?modern = "JObj [(''vulnerabilities'', ?V)]"
  let ?legacy = "JObj [(''advisories'', ?A)]"
  let ?kvs = "[(''a'', JStr ''x''), (''b'', JStr ''y'')]"
  have n: "\<not> nullish ?both" and n': "\<not> nullish ?modern" and n'': "\<not> nullish ?legacy"
    by simp_all
  have fv: "field ?both ''vulnerabilities'' = ?V"
    and fv': "field ?modern ''vulnerabilities'' = ?V"
    and fl: "field ?legacy ''vulnerabilities'' = JUndef"
    and fa: "field ?legacy ''advisories'' = ?A"
    by (simp_all add: field_def)
  have vis: "visited ?V = [JObj [(''via'', JArr [JStr ''b''])],
      JObj [(''via'', JArr [JObj [(''title'', JStr ''T'')], JStr ''c''])]]"
    by (simp add: visited_def keys_def field_def)
  have visA: "visited ?A = [JObj [(''title'', JStr ''U'')]]"
    by (simp add: visited_def keys_def field_def)
  have hv: "\<forall>p\<in>set (visited ?V). has_via p"
    by (simp add: vis has_via_def field_def)
  have ve: "concat (map via_elements (visited ?V))
      = [JStr ''b'', JObj [(''title'', JStr ''T'')], JStr ''c'']"
    by (simp add: vis via_elements_def spread_via_def field_def)
  have d: "distinct (map fst ?kvs)" by simp
  note modern = normalizer_branch_by_truthiness [OF n, of ?modern ?kvs]
  note legacy = normalizer_branch_by_truthiness [OF n'', of ?legacy ?kvs]
  have 1: "allVulns ?both = Inr [JStr ''b'', JObj [(''title'', JStr ''T'')], JStr ''c'']"
    using modern hv ve unfolding fv by simp
  have 2: "allVulns ?modern = allVulns ?both"
    using modern n' fv' unfolding fv by simp
  have 3: "allVulns ?legacy = Inr [JObj [(''title'', JStr ''U'')]]"
    using legacy visA unfolding fl fa by simp
  have 4: "visited (JObj ?kvs) = map snd ?kvs"
    using modern d by blast
  from n 1 2 3 4 show ?thesis by simp
qed

text \<open>
  C5, as the claim states it, fails: the document \<^verbatim>\<open>null\<close> has neither key, and reading
  \<^verbatim>\<open>vulnerabilities\<close> on it throws a TypeError.
\<close>

theorem null_document_throws:
  "''vulnerabilities'' \<notin> set (keys JNull) \<and> ''advisories'' \<notin> set (keys JNull)
   \<and> getVulnerabilities JNull = Inl TypeError"
  by (simp add: keys_def getVulnerabilities_def allVulns_def)

text \<open>
  C5, amended: for every parsed input document other than \<^verbatim>\<open>null\<close> that has neither an
  \<^verbatim>\<open>advisories\<close> key nor a \<^verbatim>\<open>vulnerabilities\<close> key, no error is raised, the normalized
  vulnerability list is empty, and \<^verbatim>\<open>vulnsFound\<close> in the payload is 0.
\<close>

theorem neither_key_gives_empty_report:
  assumes "\<not> nullish data"
    and "''vulnerabilities'' \<notin> set (keys data)" and "''advisories'' \<notin> set (keys data)"
    and "json_parse input = Inr data"
  shows "getVulnerabilities data = Inr []
     \<and> payload json_parse e input = Inr (templateData (now e) [])
     \<and> map_of (templateData (now e) []) ''vulnsFound'' = Some (PNum 0)"
proof -
  have "allVulns data = Inr []"
    using assms(1-3) by (simp add: allVulns_neither field_absent)
  then have "getVulnerabilities data = Inr []"
    by (simp add: getVulnerabilities_def)
  then show ?thesis
    using assms(4) by (simp add: payload_def templateData_def)
qed

theorem neither_key_gives_empty_report_witness:
  "\<not> nullish (JObj [])
   \<and> ''vulnerabilities'' \<notin> set (keys (JObj []))
   \<and> ''advisories'' \<notin> set (keys (JObj []))
   \<and> getVulnerabilities (JObj []) = Inr []
   \<and> (\<exists>obj. payload (\<lambda>s. if s = ''{}'' then Inr (JObj []) else Inl SyntaxError)
         \<lparr> now = \<lparr> getDate = 2, getMonth = 10, getFullYear = 2026,
                    getHours = 9, getMinutes = 30, getSeconds = 5 \<rparr>,
           platform = ''linux'', argv = [''node'', ''audit-export''], cwd = ''/tmp'' \<rparr>
         ''{}'' = Inr obj
       \<and> map_of obj ''vulnsFound'' = Some (PNum 0))"
proof -
  let ?doc = "JObj []"
  let ?parse = "\<lambda>s. if s = ''{}'' then Inr ?doc else Inl SyntaxError"
  let ?e = "\<lparr> now = \<lparr> getDate = 2, getMonth = 10, getFullYear = 2026,
        getHours = 9, getMinutes = 30, getSeconds = 5 \<rparr>,
      platform = ''linux'', argv = [''node'', ''audit-export''], cwd = ''/tmp'' \<rparr>"
  have n: "\<not> nullish ?doc" by simp
  have v: "''vulnerabilities'' \<notin> set (keys ?doc)"
    and a: "''advisories'' \<notin> set (keys ?doc)"
    by (simp_all add: keys_def)
  have "getVulnerabilities ?doc = Inr []
      \<and> payload ?parse ?e ''{}'' = Inr (templateData (now ?e) [])
      \<and> map_of (templateData (now ?e) []) ''vulnsFound'' = Some (PNum 0)"
    by (rule neither_key_gives_empty_report [of ?doc ?parse "''{}''" ?e])
       (simp_all add: keys_def)
  with n v a show ?thesis by blast
qed

text \<open>
  C9: in the branch taken when the value of \<^verbatim>\<open>vulnerabilities\<close> is truthy, if some package
  entry carries no iterable \<^verbatim>\<open>via\<close> (the entry cannot be read, or its \<^verbatim>\<open>via\<close> is absent or
  neither an array nor a string) the normalizer throws a TypeError, and so does
  \<^verbatim>\<open>getVulnerabilities\<close>; the normalizer returns a list exactly when every package entry
  carries an iterable \<^verbatim>\<open>via\<close>.
\<close>

theorem missing_via_throws:
  assumes "\<not> nullish data" and "truthy (field data ''vulnerabilities'')"
  shows "((\<exists>p\<in>set (visited (field data ''vulnerabilities'')). \<not> has_via p)
          \<longrightarrow> allVulns data = Inl TypeError \<and> getVulnerabilities data = Inl TypeError)
     \<and> ((\<exists>raws. allVulns data = Inr raws)
          \<longleftrightarrow> (\<forall>p\<in>set (visited (field data ''vulnerabilities'')). has_via p))"
  using assms by (auto simp add: allVulns_modern getVulnerabilities_def)

theorem missing_via_throws_witness:
  "\<not> nullish (JObj [(''vulnerabilities'',
        JObj [(''a'', JObj [(''via'', JArr [JStr ''b''])]), (''b'', JObj [])])])
   \<and> truthy (field (JObj [(''vulnerabilities'',
        JObj [(''a'', JObj [(''via'', JArr [JStr ''b''])]), (''b'', JObj [])])])
        ''vulnerabilities'')
   \<and> \<not> has_via (JObj [])
   \<and> getVulnerabilities (JObj [(''vulnerabilities'',
        JObj [(''a'', JObj [(''via'', JArr [JStr ''b''])]), (''b'', JObj [])])])
     = Inl TypeError
   \<and> has_via (JObj [(''via'', JArr [JStr ''b''])])
   \<and> (\<exists>raws. allVulns (JObj [(''vulnerabilities'',
        JObj [(''a'', JObj [(''via'', JArr [JStr ''b''])])])]) = Inr raws)"
  using
    missing_via_throws [of "JObj [(''vulnerabilities'',
        JObj [(''a'', JObj [(''via'', JArr [JStr ''b''])]), (''b'', JObj [])])]"]
    missing_via_throws [of "JObj [(''vulnerabilities'',
        JObj [(''a'', JObj [(''via'', JArr [JStr ''b''])])])]"]
  by (simp add: field_def visited_def keys_def has_via_def)

section \<open>The mapper\<close>

lemma all_ok_returns: "(\<exists>ys. all_ok rs = Inr ys) \<longleftrightarrow> (\<forall>r\<in>set rs. \<exists>y. r = Inr y)"
  by (induction rs rule: all_ok.induct) (auto split: sum.splits)

lemma all_ok_snoc:
  assumes "all_ok rs = Inr ys"
  shows "all_ok (rs @ [Inr y]) = Inr (ys @ [y])"
  using assms by (induction rs arbitrary: ys rule: all_ok.induct) (auto split: sum.splits)

lemma all_ok_length: "all_ok rs = Inr ys \<Longrightarrow> length ys = length rs"
  by (induction rs arbitrary: ys rule: all_ok.induct) (auto split: sum.splits)

text \<open>\<^verbatim>\<open>join\<close> returns on the printable values and throws on the others.\<close>

lemma elem_str_returns: "(\<exists>s. elem_str v = Inr s) \<longleftrightarrow> printable v"
proof (induction v rule: elem_str.induct)
  case (6 xs)
  have "(\<exists>ss. all_ok (map elem_str xs) = Inr ss) \<longleftrightarrow> (\<forall>x\<in>set xs. \<exists>s. elem_str x = Inr s)"
    by (simp add: all_ok_returns)
  also have "\<dots> \<longleftrightarrow> list_all printable xs"
    using 6 by (simp add: list_all_iff)
  finally show ?case by (auto split: sum.splits)
qed simp_all

lemma join_js_returns: "(\<exists>s. join_js xs sep = Inr s) \<longleftrightarrow> list_all printable xs"
proof -
  have "(\<exists>ss. all_ok (map elem_str xs) = Inr ss) \<longleftrightarrow> (\<forall>x\<in>set xs. \<exists>s. elem_str x = Inr s)"
    by (simp add: all_ok_returns)
  also have "\<dots> \<longleftrightarrow> list_all printable xs"
    by (simp add: list_all_iff elem_str_returns)
  finally show ?thesis by (auto simp add: join_js_def split: sum.splits)
qed

lemma concat_js_ok:
  "(\<exists>ids. concat_js (or_js c (JArr [])) a = Inr ids) \<longleftrightarrow> (\<not> truthy c \<or> is_array c)"
  by (cases c; cases a) (simp_all add: or_js_def)

lemma concat_js_ids:
  assumes "concat_js (or_js c (JArr [])) a = Inr ids"
  shows "list_all printable ids \<longleftrightarrow> printable c \<and> printable a"
  using assms by (cases c; cases a; clarsimp simp add: or_js_def split: if_splits)

text \<open>\<^verbatim>\<open>processVulnerability\<close> returns on the mappable entries and throws on the others.\<close>

lemma processVulnerability_returns:
  "(\<exists>r. processVulnerability raw = Inr r) \<longleftrightarrow> mappable raw"
proof (cases "nullish raw")
  case True
  then show ?thesis by (simp add: processVulnerability_def get_prop_nullish mappable_def)
next
  case False
  show ?thesis
  proof (cases "truthy (field raw ''title'')")
    case True
    show ?thesis
    proof (cases "concat_js (or_js (field raw ''cwe'') (JArr [])) (field raw ''cves'')")
      case (Inl e)
      then have "\<not> (\<not> truthy (field raw ''cwe'') \<or> is_array (field raw ''cwe''))"
        using concat_js_ok [of "field raw ''cwe''" "field raw ''cves''"] by auto
      with Inl False True show ?thesis
        by (simp add: processVulnerability_def get_prop_nullish mappable_def)
    next
      case (Inr ids)
      then have shape: "\<not> truthy (field raw ''cwe'') \<or> is_array (field raw ''cwe'')"
        using concat_js_ok [of "field raw ''cwe''" "field raw ''cves''"] by auto
      have "(\<exists>s. join_js ids '', '' = Inr s)
          \<longleftrightarrow> printable (field raw ''cwe'') \<and> printable (field raw ''cves'')"
        using concat_js_ids [OF Inr] by (simp add: join_js_returns)
      with Inr False True shape show ?thesis
        by (auto simp add: processVulnerability_def get_prop_nullish mappable_def
            split: sum.splits)
    qed
  next
    case nt: False
    with False show ?thesis
      by (simp add: processVulnerability_def get_prop_nullish mappable_def)
  qed
qed

text \<open>Only an object has a \<^verbatim>\<open>title\<close>: on a string or an array the read finds nothing.\<close>

lemma title_of_object:
  assumes "truthy (field raw ''title'')"
  shows "is_object raw"
proof (rule ccontr)
  assume "\<not> is_object raw"
  then have "\<forall>kvs. raw \<noteq> JObj kvs" by auto
  moreover have "\<not> set ''title'' \<subseteq> set digits" by (simp add: digits_def)
  ultimately have "field raw ''title'' = JUndef" by (simp add: field_not_object)
  with assms show False by simp
qed

lemma processVulnerability_Some:
  assumes "processVulnerability raw = Inr (Some v)"
  shows "object_with_title raw \<and> name v = field raw ''title''"
  using assms title_of_object [of raw]
  by (auto simp add: processVulnerability_def get_prop_nullish object_with_title_def
      split: sum.splits if_splits)

lemma processVulnerability_None:
  assumes "processVulnerability raw = Inr None"
  shows "\<not> object_with_title raw"
  using assms
  by (auto simp add: processVulnerability_def get_prop_nullish object_with_title_def
      split: sum.splits if_splits)

lemma map_process_returns:
  "(\<exists>rs. map_process raws = Inr rs) \<longleftrightarrow> (\<forall>raw\<in>set raws. mappable raw)"
proof (induction raws)
  case Nil
  show ?case by simp
next
  case (Cons raw raws)
  from Cons.IH processVulnerability_returns [of raw] show ?case
    by (auto split: sum.splits)
qed

lemma map_process_each:
  assumes "map_process raws = Inr rs"
  shows "list_all2 (\<lambda>raw r. processVulnerability raw = Inr r) raws rs"
  using assms
  by (induction raws arbitrary: rs) (auto split: sum.splits)

lemma filter_defined_each:
  assumes "list_all2 (\<lambda>raw r. processVulnerability raw = Inr r) raws rs"
  shows "list_all2 (\<lambda>raw v. processVulnerability raw = Inr (Some v))
           (filter object_with_title raws) (filter_defined rs)"
  using assms
proof (induction rule: list_all2_induct)
  case Nil
  show ?case by simp
next
  case (Cons raw raws r rs)
  show ?case
  proof (cases r)
    case None
    with Cons show ?thesis by (simp add: processVulnerability_None)
  next
    case (Some v)
    with Cons show ?thesis by (simp add: processVulnerability_Some)
  qed
qed

text \<open>
  C3, as the claim states it, fails. An advisory that is an object with the non-empty
  title \<^verbatim>\<open>"T"\<close> and whose \<^verbatim>\<open>cwe\<close> is the string \<^verbatim>\<open>"CWE-400"\<close> is in the normalizer's
  output and in no mapper output: \<^verbatim>\<open>"CWE-400".concat([])\<close> is a string, \<^verbatim>\<open>join\<close> is not a
  function of it, and the mapper throws. So it does where the \<^verbatim>\<open>cwe\<close> array of a titled
  advisory holds an object with an own \<^verbatim>\<open>toString\<close> key, which \<^verbatim>\<open>join\<close> cannot print. A
  \<^verbatim>\<open>via\<close> element \<^verbatim>\<open>null\<close> is not an object and is not excluded: reading its \<^verbatim>\<open>title\<close>
  throws. And the test on the title is truthiness: of two advisories, the one whose title
  is the number \<^verbatim>\<open>0\<close>, which is there and is not the empty string, is excluded, and the
  one whose title is the empty array appears, with the empty array as its name.
\<close>

theorem mapper_throws_on_titled_entry:
  "object_with_title (JObj [(''title'', JStr ''T''), (''module_name'', JStr ''m''),
        (''severity'', JStr ''high''), (''cwe'', JStr ''CWE-400''), (''cves'', JArr [])])
   \<and> allVulns (JObj [(''advisories'', JObj [(''1'',
        JObj [(''title'', JStr ''T''), (''module_name'', JStr ''m''),
          (''severity'', JStr ''high''), (''cwe'', JStr ''CWE-400''), (''cves'', JArr [])])])])
     = Inr [JObj [(''title'', JStr ''T''), (''module_name'', JStr ''m''),
          (''severity'', JStr ''high''), (''cwe'', JStr ''CWE-400''), (''cves'', JArr [])]]
   \<and> getVulnerabilities (JObj [(''advisories'', JObj [(''1'',
        JObj [(''title'', JStr ''T''), (''module_name'', JStr ''m''),
          (''severity'', JStr ''high''), (''cwe'', JStr ''CWE-400''), (''cves'', JArr [])])])])
     = Inl TypeError
   \<and> object_with_title (JObj [(''title'', JStr ''T''), (''name'', JStr ''p''),
        (''cwe'', JArr [JObj [(''toString'', JNum ''1'')]]), (''cves'', JArr [])])
   \<and> getVulnerabilities (JObj [(''advisories'', JObj [(''1'',
        JObj [(''title'', JStr ''T''), (''name'', JStr ''p''),
          (''cwe'', JArr [JObj [(''toString'', JNum ''1'')]]), (''cves'', JArr [])])])])
     = Inl TypeError
   \<and> \<not> is_object JNull
   \<and> allVulns (JObj [(''vulnerabilities'', JObj [(''a'', JObj [(''via'', JArr [JNull])])])])
     = Inr [JNull]
   \<and> getVulnerabilities
        (JObj [(''vulnerabilities'', JObj [(''a'', JObj [(''via'', JArr [JNull])])])])
     = Inl TypeError
   \<and> field (JObj [(''title'', JNum ''0''), (''name'', JStr ''p'')]) ''title'' = JNum ''0''
   \<and> getVulnerabilities (JObj [(''advisories'', JObj [
        (''1'', JObj [(''title'', JNum ''0''), (''name'', JStr ''p'')]),
        (''2'', JObj [(''title'', JArr []), (''name'', JStr ''q'')])])])
     = Inr [\<lparr> link = JUndef, name = JArr [], package = JStr ''q'',
               severity = JUndef, cwes = [] \<rparr>]"
  by (simp add: object_with_title_def getVulnerabilities_def allVulns_def keys_def
      spread_via_def field_def processVulnerability_def or_js_def join_js_def)

text \<open>
  C3, amended: where no raw entry of the normalizer's output is \<^verbatim>\<open>null\<close>, and every entry
  with a truthy \<^verbatim>\<open>title\<close> has a \<^verbatim>\<open>cwe\<close> that is absent, falsy or an array and holds in
  \<^verbatim>\<open>cwe\<close> and \<^verbatim>\<open>cves\<close> only what \<^verbatim>\<open>join\<close> can print (no object with an own \<^verbatim>\<open>toString\<close>
  key), the mapper returns, and its output is, in order, one record for each entry that is
  an object with a truthy title (for a string: a non-empty one), the record
  \<^verbatim>\<open>processVulnerability\<close> builds from that entry; every other entry (a plain string, an
  object with no title or a falsy one) maps to nothing and is excluded; every record of
  the final list has a truthy name, so not the empty string, and no null or partial record
  is in the list.
\<close>

theorem mapper_keeps_objects_with_title:
  assumes "allVulns data = Inr raws" and "\<forall>raw\<in>set raws. mappable raw"
  shows "\<exists>vs. getVulnerabilities data = Inr vs
     \<and> list_all2 (\<lambda>raw v. processVulnerability raw = Inr (Some v))
          (filter object_with_title raws) vs
     \<and> (\<forall>raw\<in>set raws. \<not> object_with_title raw \<longrightarrow> processVulnerability raw = Inr None)
     \<and> (\<forall>v\<in>set vs. truthy (name v) \<and> name v \<noteq> JStr [])"
proof -
  from assms(2) obtain rs where rs: "map_process raws = Inr rs"
    using map_process_returns by blast
  let ?vs = "filter_defined rs"
  have each: "list_all2 (\<lambda>raw r. processVulnerability raw = Inr r) raws rs"
    using rs by (rule map_process_each)
  have kept: "list_all2 (\<lambda>raw v. processVulnerability raw = Inr (Some v))
                (filter object_with_title raws) ?vs"
    using each by (rule filter_defined_each)
  have dropped: "processVulnerability raw = Inr None"
    if "raw \<in> set raws" and "\<not> object_with_title raw" for raw
  proof -
    from that(1) assms(2) obtain r where r: "processVulnerability raw = Inr r"
      using processVulnerability_returns by blast
    show ?thesis
    proof (cases r)
      case None
      with r show ?thesis by simp
    next
      case (Some v)
      with r that(2) show ?thesis using processVulnerability_Some by blast
    qed
  qed
  have named: "truthy (name v) \<and> name v \<noteq> JStr []" if "v \<in> set ?vs" for v
  proof -
    from kept that obtain raw where "processVulnerability raw = Inr (Some v)"
      by (auto simp add: list_all2_conv_all_nth in_set_conv_nth)
    then have "object_with_title raw" and "name v = field raw ''title''"
      using processVulnerability_Some by blast+
    then have "truthy (name v)" by (simp add: object_with_title_def)
    then show ?thesis by auto
  qed
  have "getVulnerabilities data = Inr ?vs"
    by (simp add: getVulnerabilities_def assms(1) rs)
  with kept dropped named show ?thesis by blast
qed

theorem mapper_keeps_objects_with_title_witness:
  "allVulns (JObj [(''vulnerabilities'', JObj [(''a'', JObj [(''via'',
        JArr [JStr ''b'', JObj [(''title'', JStr ''T''), (''name'', JStr ''a''),
                (''cwe'', JArr [JStr ''CWE-1'']), (''cves'', JArr [JStr ''CVE-1''])],
              JObj [(''name'', JStr ''a''), (''title'', JStr [])]])])])])
     = Inr [JStr ''b'', JObj [(''title'', JStr ''T''), (''name'', JStr ''a''),
                (''cwe'', JArr [JStr ''CWE-1'']), (''cves'', JArr [JStr ''CVE-1''])],
            JObj [(''name'', JStr ''a''), (''title'', JStr [])]]
   \<and> list_all mappable
        [JStr ''b'', JObj [(''title'', JStr ''T''), (''name'', JStr ''a''),
                (''cwe'', JArr [JStr ''CWE-1'']), (''cves'', JArr [JStr ''CVE-1''])],
         JObj [(''name'', JStr ''a''), (''title'', JStr [])]]
   \<and> (\<exists>vs. getVulnerabilities (JObj [(''vulnerabilities'', JObj [(''a'', JObj [(''via'',
        JArr [JStr ''b'', JObj [(''title'', JStr ''T''), (''name'', JStr ''a''),
                (''cwe'', JArr [JStr ''CWE-1'']), (''cves'', JArr [JStr ''CVE-1''])],
              JObj [(''name'', JStr ''a''), (''title'', JStr [])]])])])]) = Inr vs
        \<and> length vs = 1 \<and> list_all (\<lambda>v. name v = JStr ''T'') vs)"
proof -
  let ?titled = "JObj [(''title'', JStr ''T''), (''name'', JStr ''a''),
                (''cwe'', JArr [JStr ''CWE-1'']), (''cves'', JArr [JStr ''CVE-1''])]"
  let ?untitled = "JObj [(''name'', JStr ''a''), (''title'', JStr [])]"
  let ?raws = "[JStr ''b'', ?titled, ?untitled]"
  let ?data = "JObj [(''vulnerabilities'', JObj [(''a'', JObj [(''via'', JArr ?raws)])])]"
  have raws: "allVulns ?data = Inr ?raws"
    by (simp add: allVulns_def keys_def spread_via_def field_def)
  have fs: "field (JStr ''b'') ''title'' = JUndef"
    by (rule field_not_object) (simp_all add: digits_def)
  have m: "list_all mappable ?raws"
    by (simp add: mappable_def fs) (simp add: field_def)
  then have m': "\<forall>raw\<in>set ?raws. mappable raw"
    by (simp only: list_all_iff)
  have t: "filter object_with_title ?raws = [?titled]"
    by (simp add: object_with_title_def) (simp add: field_def)
  have p: "processVulnerability ?titled = Inr (Some v) \<Longrightarrow> name v = JStr ''T''" for v
    by (auto simp add: processVulnerability_def field_def or_js_def join_js_def
        split: sum.splits)
  from mapper_keeps_objects_with_title [OF raws m'] obtain vs
    where vs: "getVulnerabilities ?data = Inr vs"
      and each: "list_all2 (\<lambda>raw v. processVulnerability raw = Inr (Some v))
          (filter object_with_title ?raws) vs"
    by blast
  from each have "length vs = 1 \<and> list_all (\<lambda>v. name v = JStr ''T'') vs"
    unfolding t by (auto simp add: list_all2_Cons1 p)
  with raws m vs show ?thesis by blast
qed

section \<open>The identifiers of an advisory\<close>

lemma sep_join_snoc_empty:
  assumes "ss \<noteq> []"
  shows "sep_join sep (ss @ [[]]) = sep_join sep ss @ sep"
  using assms by (induction sep ss rule: sep_join.induct) simp_all

lemma sep_join_append:
  assumes "ss \<noteq> []" and "ts \<noteq> []"
  shows "sep_join sep (ss @ ts) = sep_join sep ss @ sep @ sep_join sep ts"
  using assms
proof (induction sep ss rule: sep_join.induct)
  case (1 sep)
  then show ?case by simp
next
  case (2 sep x)
  then show ?case by (cases ts) simp_all
next
  case (3 sep x y ys)
  then show ?case by simp
qed

text \<open>
  With both \<^verbatim>\<open>cwe\<close> and \<^verbatim>\<open>cves\<close> arrays, \<^verbatim>\<open>cwes\<close> is the CWE identifiers followed by the
  CVE identifiers, joined.
\<close>

lemma cwes_of_both:
  assumes "truthy (field vuln ''title'')"
    and "field vuln ''cwe'' = JArr xs" and "field vuln ''cves'' = JArr ys"
    and "join_js (xs @ ys) '', '' = Inr joined"
  shows "\<exists>v. processVulnerability vuln = Inr (Some v) \<and> cwes v = joined"
proof -
  from assms(1) have "\<not> nullish vuln" by (cases vuln) (simp_all add: field_def)
  with assms show ?thesis
    by (simp add: processVulnerability_def get_prop_nullish or_js_def)
qed

text \<open>
  With \<^verbatim>\<open>cves\<close> absent and \<^verbatim>\<open>cwe\<close> a non-empty array, \<^verbatim>\<open>cwes\<close> is the CWE identifiers
  joined and one separator more.
\<close>

lemma cwes_of_absent_cves:
  assumes "truthy (field vuln ''title'')"
    and "field vuln ''cwe'' = JArr xs" and "xs \<noteq> []" and "field vuln ''cves'' = JUndef"
    and "join_js xs '', '' = Inr joined"
  shows "\<exists>v. processVulnerability vuln = Inr (Some v) \<and> cwes v = joined @ '', ''"
proof -
  from assms(1) have n: "\<not> nullish vuln" by (cases vuln) (simp_all add: field_def)
  from assms(5) obtain ss where ss: "all_ok (map elem_str xs) = Inr ss"
    and joined: "joined = sep_join '', '' ss"
    by (auto simp add: join_js_def split: sum.splits)
  from ss have "length ss = length xs" using all_ok_length by fastforce
  with assms(3) have "ss \<noteq> []" by auto
  moreover have "all_ok (map elem_str (xs @ [JUndef])) = Inr (ss @ [[]])"
    using all_ok_snoc [OF ss, of "[]"] by simp
  ultimately have "join_js (xs @ [JUndef]) '', '' = Inr (joined @ '', '')"
    by (simp add: join_js_def joined sep_join_snoc_empty)
  with n assms show ?thesis
    by (simp add: processVulnerability_def get_prop_nullish or_js_def)
qed

text \<open>
  C1 (the \<^verbatim>\<open>cwes\<close> field is the CWE identifiers followed by the CVE identifiers, joined with
  \<^verbatim>\<open>", "\<close>, an absent \<^verbatim>\<open>cves\<close> counting as empty). The code at an advisory with one CWE
  identifier and no \<^verbatim>\<open>cves\<close>: \<^verbatim>\<open>concat(undefined)\<close> appends \<^verbatim>\<open>undefined\<close> as an
  element, \<^verbatim>\<open>join\<close> prints it as the empty text after one more separator, and \<^verbatim>\<open>cwes\<close> is
  \<^verbatim>\<open>"CWE-1, "\<close>, where the identifiers joined alone are \<^verbatim>\<open>"CWE-1"\<close>.
\<close>

theorem cwes_without_cves_ends_in_separator:
  "getVulnerabilities
     (JObj [(''vulnerabilities'', JObj [(''p'', JObj [(''via'',
        JArr [JObj [(''title'', JStr ''T''), (''name'', JStr ''p''),
                    (''severity'', JStr ''high''), (''cwe'', JArr [JStr ''CWE-1''])]])])])])
   = Inr [\<lparr> link = JUndef, name = JStr ''T'', package = JStr ''p'',
             severity = JStr ''high'', cwes = ''CWE-1, '' \<rparr>]
   \<and> join_js [JStr ''CWE-1''] '', '' = Inr ''CWE-1''"
  by (simp add: getVulnerabilities_def allVulns_def keys_def spread_via_def field_def
      processVulnerability_def or_js_def join_js_def)

section \<open>The aggregator\<close>

lemma set_add_length: "length (set_add s x) \<le> Suc (length s)"
  by (simp add: set_add_def)

lemma new_Set_length_acc: "length (foldl set_add acc xs) \<le> length acc + length xs"
proof (induction xs arbitrary: acc)
  case Nil
  show ?case by simp
next
  case (Cons x xs)
  have "length (foldl set_add (set_add acc x) xs) \<le> length (set_add acc x) + length xs"
    by (rule Cons.IH)
  also have "\<dots> \<le> Suc (length acc) + length xs"
    using set_add_length [of acc x] by simp
  finally show ?case by simp
qed

lemma set_add_primitive:
  assumes "\<forall>y\<in>set s. primitive y"
  shows "set_add s x = (if x \<in> set s then s else s @ [x])"
  using assms by (auto simp add: set_add_def list_ex_iff same_value_zero_def)

lemma new_Set_primitive_acc:
  assumes "\<forall>y\<in>set acc. primitive y" and "\<forall>x\<in>set xs. primitive x" and "distinct acc"
  shows "distinct (foldl set_add acc xs) \<and> set (foldl set_add acc xs) = set acc \<union> set xs"
  using assms
proof (induction xs arbitrary: acc)
  case Nil
  then show ?case by simp
next
  case (Cons x xs)
  let ?acc = "set_add acc x"
  have eq: "?acc = (if x \<in> set acc then acc else acc @ [x])"
    using Cons.prems(1) by (rule set_add_primitive)
  have "\<forall>y\<in>set ?acc. primitive y" using Cons.prems(1,2) by (simp add: eq)
  moreover have "\<forall>x\<in>set xs. primitive x" using Cons.prems(2) by simp
  moreover have "distinct ?acc" using Cons.prems(3) by (simp add: eq)
  ultimately have "distinct (foldl set_add ?acc xs)
      \<and> set (foldl set_add ?acc xs) = set ?acc \<union> set xs"
    by (rule Cons.IH)
  then show ?case by (auto simp add: eq split: if_splits)
qed

text \<open>
  C6: for every normalized vulnerability list, \<^verbatim>\<open>vulnerableDependencies\<close> is at most
  \<^verbatim>\<open>vulnsFound\<close>, the length of the list; and where the \<^verbatim>\<open>package\<close> values are strings
  (or other primitives, \<^verbatim>\<open>undefined\<close> among them) it is the number of distinct
  \<^verbatim>\<open>package\<close> values, two strings being the same value when they are equal character by
  character.
\<close>

theorem distinct_packages_counted:
  "vulnerableDependencies vs \<le> length vs
   \<and> ((\<forall>v\<in>set vs. primitive (package v))
        \<longrightarrow> vulnerableDependencies vs = card (package ` set vs))"
proof -
  have "vulnerableDependencies vs \<le> length vs"
    using new_Set_length_acc [of "[]" "map package vs"]
    by (simp add: vulnerableDependencies_def new_Set_def)
  moreover have "vulnerableDependencies vs = card (package ` set vs)"
    if "\<forall>v\<in>set vs. primitive (package v)"
  proof -
    from that have "distinct (new_Set (map package vs))
        \<and> set (new_Set (map package vs)) = set (map package vs)"
      using new_Set_primitive_acc [of "[]" "map package vs"] by (simp add: new_Set_def)
    then have "length (new_Set (map package vs)) = card (set (map package vs))"
      by (metis distinct_card)
    then show ?thesis by (simp add: vulnerableDependencies_def)
  qed
  ultimately show ?thesis by blast
qed

theorem distinct_packages_counted_witness:
  "list_all (\<lambda>v. primitive (package v))
     [\<lparr> link = JUndef, name = JStr ''A'', package = JStr ''left-pad'',
         severity = JStr ''high'', cwes = [] \<rparr>,
      \<lparr> link = JUndef, name = JStr ''B'', package = JStr ''left-pad'',
         severity = JStr ''low'', cwes = [] \<rparr>,
      \<lparr> link = JUndef, name = JStr ''C'', package = JStr ''Left-Pad'',
         severity = JStr ''low'', cwes = [] \<rparr>]
   \<and> vulnerableDependencies
     [\<lparr> link = JUndef, name = JStr ''A'', package = JStr ''left-pad'',
         severity = JStr ''high'', cwes = [] \<rparr>,
      \<lparr> link = JUndef, name = JStr ''B'', package = JStr ''left-pad'',
         severity = JStr ''low'', cwes = [] \<rparr>,
      \<lparr> link = JUndef, name = JStr ''C'', package = JStr ''Left-Pad'',
         severity = JStr ''low'', cwes = [] \<rparr>]
     = card {JStr ''left-pad'', JStr ''Left-Pad''}
   \<and> card {JStr ''left-pad'', JStr ''Left-Pad''} = 2"
  using distinct_packages_counted [of
     "[\<lparr> link = JUndef, name = JStr ''A'', package = JStr ''left-pad'',
         severity = JStr ''high'', cwes = [] \<rparr>,
      \<lparr> link = JUndef, name = JStr ''B'', package = JStr ''left-pad'',
         severity = JStr ''low'', cwes = [] \<rparr>,
      \<lparr> link = JUndef, name = JStr ''C'', package = JStr ''Left-Pad'',
         severity = JStr ''low'', cwes = [] \<rparr>]"]
  by simp

lemma count_Cons:
  "countVulnerabilities (v # vs) s =
     (if severity v = JStr s then Suc (countVulnerabilities vs s) else countVulnerabilities vs s)"
  by (simp add: countVulnerabilities_def)

lemma count_Nil: "countVulnerabilities [] s = 0"
  by (simp add: countVulnerabilities_def)

text \<open>
  C7: for every normalized vulnerability list, the five severity counts, each the number
  of entries whose \<^verbatim>\<open>severity\<close> is that literal exactly, add up to at most \<^verbatim>\<open>vulnsFound\<close>,
  the length of the list, and to the length exactly when the severity of every entry is
  one of the five literals; an entry with another severity is in no count and in the
  length.
\<close>

theorem severity_counts_sum:
  "countVulnerabilities vs ''critical'' + countVulnerabilities vs ''high''
     + countVulnerabilities vs ''moderate'' + countVulnerabilities vs ''low''
     + countVulnerabilities vs ''info'' \<le> length vs
   \<and> (countVulnerabilities vs ''critical'' + countVulnerabilities vs ''high''
        + countVulnerabilities vs ''moderate'' + countVulnerabilities vs ''low''
        + countVulnerabilities vs ''info'' = length vs
      \<longleftrightarrow> (\<forall>v\<in>set vs. severity v \<in> JStr ` set severities))"
proof (induction vs)
  case Nil
  show ?case by (simp add: count_Nil)
next
  case (Cons v vs)
  then show ?case by (auto simp add: count_Cons severities_def)
qed

theorem severity_counts_sum_witness:
  "countVulnerabilities
     [\<lparr> link = JUndef, name = JStr ''A'', package = JStr ''p'',
         severity = JStr ''high'', cwes = [] \<rparr>,
      \<lparr> link = JUndef, name = JStr ''B'', package = JStr ''q'',
         severity = JStr ''High'', cwes = [] \<rparr>] ''high'' = 1
   \<and> \<not> list_all (\<lambda>v. severity v \<in> JStr ` set severities)
     [\<lparr> link = JUndef, name = JStr ''A'', package = JStr ''p'',
         severity = JStr ''high'', cwes = [] \<rparr>,
      \<lparr> link = JUndef, name = JStr ''B'', package = JStr ''q'',
         severity = JStr ''High'', cwes = [] \<rparr>]
   \<and> countVulnerabilities
     [\<lparr> link = JUndef, name = JStr ''A'', package = JStr ''p'',
         severity = JStr ''high'', cwes = [] \<rparr>,
      \<lparr> link = JUndef, name = JStr ''B'', package = JStr ''q'',
         severity = JStr ''High'', cwes = [] \<rparr>] ''critical''
     + countVulnerabilities
     [\<lparr> link = JUndef, name = JStr ''A'', package = JStr ''p'',
         severity = JStr ''high'', cwes = [] \<rparr>,
      \<lparr> link = JUndef, name = JStr ''B'', package = JStr ''q'',
         severity = JStr ''High'', cwes = [] \<rparr>] ''high''
     + countVulnerabilities
     [\<lparr> link = JUndef, name = JStr ''A'', package = JStr ''p'',
         severity = JStr ''high'', cwes = [] \<rparr>,
      \<lparr> link = JUndef, name = JStr ''B'', package = JStr ''q'',
         severity = JStr ''High'', cwes = [] \<rparr>] ''moderate''
     + countVulnerabilities
     [\<lparr> link = JUndef, name = JStr ''A'', package = JStr ''p'',
         severity = JStr ''high'', cwes = [] \<rparr>,
      \<lparr> link = JUndef, name = JStr ''B'', package = JStr ''q'',
         severity = JStr ''High'', cwes = [] \<rparr>] ''low''
     + countVulnerabilities
     [\<lparr> link = JUndef, name = JStr ''A'', package = JStr ''p'',
         severity = JStr ''high'', cwes = [] \<rparr>,
      \<lparr> link = JUndef, name = JStr ''B'', package = JStr ''q'',
         severity = JStr ''High'', cwes = [] \<rparr>] ''info''
     < 2"
  using severity_counts_sum [of
     "[\<lparr> link = JUndef, name = JStr ''A'', package = JStr ''p'',
         severity = JStr ''high'', cwes = [] \<rparr>,
      \<lparr> link = JUndef, name = JStr ''B'', package = JStr ''q'',
         severity = JStr ''High'', cwes = [] \<rparr>]"]
  by (simp add: severities_def count_Cons count_Nil)

section \<open>The report payload\<close>

text \<open>The payload has the nine keys of the object literal, whatever the input.\<close>

lemma payload_keys:
  assumes "payload json_parse e data = Inr obj"
  shows "map fst obj = [''vulnsFound'', ''vulnerableDependencies'', ''currentDate'',
     ''criticalVulns'', ''highVulns'', ''moderateVulns'', ''lowVulns'', ''infoVulns'',
     ''vulnerabilities'']"
  using assms by (auto simp: payload_def templateData_def split: sum.splits)

text \<open>
  What the payload holds: the normalized list, its length, the number of distinct
  packages, the five severity counts and the text of the clock.
\<close>

lemma payload_fields:
  assumes "json_parse data = Inr doc" and "getVulnerabilities doc = Inr vs"
  shows "payload json_parse e data = Inr
     [(''vulnsFound'', PNum (length vs)),
      (''vulnerableDependencies'', PNum (vulnerableDependencies vs)),
      (''currentDate'', PStr (getCurrentDate (now e))),
      (''criticalVulns'', PNum (countVulnerabilities vs ''critical'')),
      (''highVulns'', PNum (countVulnerabilities vs ''high'')),
      (''moderateVulns'', PNum (countVulnerabilities vs ''moderate'')),
      (''lowVulns'', PNum (countVulnerabilities vs ''low'')),
      (''infoVulns'', PNum (countVulnerabilities vs ''info'')),
      (''vulnerabilities'', PVulns vs)]"
  using assms by (simp add: payload_def templateData_def)

text \<open>The renderer is handed the payload, and its result is the content.\<close>

lemma generateHtmlTemplateContent_renders:
  assumes "payload json_parse e data = Inr obj"
  shows "generateHtmlTemplateContent json_parse render e data = render obj"
  using assms by (simp add: generateHtmlTemplateContent_def)

text \<open>
  C2 (the payload handed to the renderer holds the normalized list, the counts, the
  caller-supplied title and a timestamp). The code at the empty report, called with
  \<^verbatim>\<open>--title "My Report"\<close>: the payload is the nine entries below, the list, the counts and
  the timestamp among them, and neither a \<^verbatim>\<open>title\<close> key nor the title given.
\<close>

theorem payload_has_no_title:
  "payload (\<lambda>s. if s = ''{}'' then Inr (JObj []) else Inl SyntaxError)
     \<lparr> now = \<lparr> getDate = 2, getMonth = 10, getFullYear = 2026,
                getHours = 9, getMinutes = 30, getSeconds = 5 \<rparr>,
       platform = ''linux'',
       argv = [''node'', ''audit-export'', ''--folder'', ''.'', ''--name'', ''r.html'',
               ''--title'', ''My Report''],
       cwd = ''/tmp'' \<rparr>
     ''{}''
   = Inr [(''vulnsFound'', PNum 0),
          (''vulnerableDependencies'', PNum 0),
          (''currentDate'', PStr ''02 of November, 2026 - 09:30:05''),
          (''criticalVulns'', PNum 0),
          (''highVulns'', PNum 0),
          (''moderateVulns'', PNum 0),
          (''lowVulns'', PNum 0),
          (''infoVulns'', PNum 0),
          (''vulnerabilities'', PVulns [])]"
  by (simp add: payload_def getVulnerabilities_def allVulns_def field_def templateData_def
      vulnerableDependencies_def new_Set_def countVulnerabilities_def getCurrentDate_def
      checkNumLength_def str_def months_def dec.simps digit_def digits_def)

text \<open>
  C8: two runs on the same input, with the same \<^verbatim>\<open>JSON.parse\<close> and clocks that read the
  same, hand the renderer the same payload (or throw the same error), whatever else
  differs between the two runs: the platform, the arguments, the working directory.
\<close>

theorem payload_deterministic:
  assumes "now e1 = now e2"
  shows "payload json_parse e1 data = payload json_parse e2 data
     \<and> generateHtmlTemplateContent json_parse render e1 data
       = generateHtmlTemplateContent json_parse render e2 data"
  unfolding generateHtmlTemplateContent_def payload_def assms by simp

theorem payload_deterministic_witness:
  "now \<lparr> now = \<lparr> getDate = 2, getMonth = 10, getFullYear = 2026,
                  getHours = 9, getMinutes = 30, getSeconds = 5 \<rparr>,
         platform = ''linux'', argv = [''node'', ''audit-export''], cwd = ''/tmp'' \<rparr>
   = now \<lparr> now = \<lparr> getDate = 2, getMonth = 10, getFullYear = 2026,
                  getHours = 9, getMinutes = 30, getSeconds = 5 \<rparr>,
         platform = ''win32'', argv = [''node'', ''audit-export'', ''out''], cwd = ''C:'' \<rparr>
   \<and> payload (\<lambda>s. Inr (JObj []))
       \<lparr> now = \<lparr> getDate = 2, getMonth = 10, getFullYear = 2026,
                  getHours = 9, getMinutes = 30, getSeconds = 5 \<rparr>,
         platform = ''linux'', argv = [''node'', ''audit-export''], cwd = ''/tmp'' \<rparr> ''{}''
   = payload (\<lambda>s. Inr (JObj []))
       \<lparr> now = \<lparr> getDate = 2, getMonth = 10, getFullYear = 2026,
                  getHours = 9, getMinutes = 30, getSeconds = 5 \<rparr>,
         platform = ''win32'', argv = [''node'', ''audit-export'', ''out''], cwd = ''C:'' \<rparr>
       ''{}''"
proof -
  let ?d = "\<lparr> getDate = 2, getMonth = 10, getFullYear = 2026,
      getHours = 9, getMinutes = 30, getSeconds = (5::nat) \<rparr>"
  let ?e1 = "\<lparr> now = ?d, platform = ''linux'', argv = [''node'', ''audit-export''],
      cwd = ''/tmp'' \<rparr>"
  let ?e2 = "\<lparr> now = ?d, platform = ''win32'', argv = [''node'', ''audit-export'', ''out''],
      cwd = ''C:'' \<rparr>"
  have h: "now ?e1 = now ?e2" by simp
  from h payload_deterministic [OF h] show ?thesis by blast
qed

section \<open>The path written to\<close>

text \<open>
  C10: for every folder path, the final output path is the folder, the separator and the
  file name given, when one is given, and the folder, the separator and
  \<^verbatim>\<open>audit-report.html\<close> when none is (an empty argument is none); the separator is the
  backslash on \<^verbatim>\<open>win32\<close> and the slash on every other platform.
\<close>

theorem final_path:
  "(f \<noteq> [] \<longrightarrow> getFinalPath plat folder (Some f)
       = folder @ (if plat = ''win32'' then [CHR 0x5C] else ''/'') @ f)
   \<and> getFinalPath plat folder None
       = folder @ (if plat = ''win32'' then [CHR 0x5C] else ''/'') @ ''audit-report.html''
   \<and> getFinalPath plat folder (Some [])
       = folder @ (if plat = ''win32'' then [CHR 0x5C] else ''/'') @ ''audit-report.html''"
  by (simp add: getFinalPath_def join_def OUTPUT_FILE_NAME_def)

theorem final_path_witness:
  "''r.html'' \<noteq> []
   \<and> getFinalPath ''linux'' ''out'' (Some ''r.html'') = ''out/r.html''
   \<and> getFinalPath ''win32'' ''out'' (Some ''r.html'') = ''out'' @ [CHR 0x5C] @ ''r.html''
   \<and> getFinalPath ''darwin'' ''out'' None = ''out/audit-report.html''"
  using final_path [of "''r.html''" "''linux''" "''out''"]
    final_path [of "''r.html''" "''win32''" "''out''"]
    final_path [of "''r.html''" "''darwin''" "''out''"]
  by simp

text \<open>
  The path the program writes to: the folder is the first argument, or the working
  directory; the file name is the second argument, or the default.
\<close>

lemma finalPath_default:
  assumes "length (argv e) \<le> 2"
  shows "finalPath e = join (platform e) [cwd e, ''audit-report.html'']"
  using assms
  by (simp add: finalPath_def folderPath_def filePath_def arg_def getFinalPath_def
      OUTPUT_FILE_NAME_def)

lemma finalPath_arguments:
  assumes "argv e = [node, script, folder, file]" and "folder \<noteq> []" and "file \<noteq> []"
  shows "finalPath e = join (platform e) [folder, file]"
  using assms
  by (simp add: finalPath_def folderPath_def filePath_def arg_def getFinalPath_def)

end
